theory Spec2Isabelle
  imports Main "HOL-Library.Word"
begin

section \<open>The mutex of the RTOS core and the threads it works on\<close>

text \<open>
  The embedding follows \<^verbatim>\<open>os::rtos::mutex\<close> (the member functions of the mutex
  translation unit) built without \<^verbatim>\<open>OS_USE_RTOS_PORT_MUTEX\<close> and without tracing.
  A call is a function from the system state to a result code and the new state.
  The mutex refers to threads by pointer and reads and writes their priority through
  it, so threads live in a store indexed by thread identity.
\<close>

subsection \<open>Result codes\<close>

text \<open>
  \<^verbatim>\<open>result_t\<close> values: \<^verbatim>\<open>result::ok\<close> and the error numbers of \<^verbatim>\<open><errno.h>\<close> used
  by the mutex, one constructor for each value.
\<close>

datatype result_t =
    ok | EPERM | EINVAL | EDEADLK | EWOULDBLOCK | ETIMEDOUT | EINTR
  | EOWNERDEAD | ENOTRECOVERABLE | ENOTSUP

text \<open>
  \<^verbatim>\<open>EAGAIN\<close> and \<^verbatim>\<open>EWOULDBLOCK\<close> are two macros of \<^verbatim>\<open><errno.h>\<close> with the same
  value on the platforms of the kernel, so they are one result code: a comparison
  \<^verbatim>\<open>res != EWOULDBLOCK\<close> is false for \<^verbatim>\<open>res = EAGAIN\<close>.
\<close>

definition EAGAIN :: result_t where
  "EAGAIN = EWOULDBLOCK"

subsection \<open>Threads\<close>

text \<open>\<^verbatim>\<open>thread::priority_t\<close> is \<^verbatim>\<open>uint8_t\<close>; higher values are higher priorities.\<close>

type_synonym priority_t = "8 word"

text \<open>\<^verbatim>\<open>thread::priority::none = 0\<close>.\<close>

definition priority_none :: priority_t where
  "priority_none = 0"

text \<open>
  The members of \<^verbatim>\<open>thread\<close> the mutex touches: \<^verbatim>\<open>prio_\<close>, \<^verbatim>\<open>acquired_mutexes_\<close>
  (a \<^verbatim>\<open>std::size_t\<close>, 32 bits on the microcontrollers the kernel targets; increment
  and decrement wrap) and \<^verbatim>\<open>interrupted_\<close>.
\<close>

record thread =
  prio_th :: priority_t
  acquired_mutexes_th :: "32 word"
  interrupted_th :: bool

type_synonym tid = nat

type_synonym thread_store = "tid \<Rightarrow> thread"

text \<open>\<^verbatim>\<open>thread::interrupted ()\<close> returns \<^verbatim>\<open>interrupted_\<close>.\<close>

definition interrupted :: "thread \<Rightarrow> bool" where
  "interrupted th = interrupted_th th"

text \<open>
  Modelled from the spec: the priority accessor and mutator of a thread,
  \<^verbatim>\<open>thread::priority ()\<close> and \<^verbatim>\<open>thread::priority (prio)\<close>, which the mutex calls and
  whose bodies are missing from the sources. The specification gives a thread the
  capability to "read/write current priority": the accessor returns the current
  priority, the mutator stores the new one.
\<close>

definition priority :: "thread \<Rightarrow> priority_t" where
  "priority th = prio_th th"

definition set_priority :: "tid \<Rightarrow> priority_t \<Rightarrow> thread_store \<Rightarrow> thread_store" where
  "set_priority t p ths = ths (t := (ths t) \<lparr>prio_th := p\<rparr>)"

text \<open>\<^verbatim>\<open>++(t->acquired_mutexes_)\<close> and \<^verbatim>\<open>--(t->acquired_mutexes_)\<close>.\<close>

definition inc_acquired :: "tid \<Rightarrow> thread_store \<Rightarrow> thread_store" where
  "inc_acquired t ths = ths (t := (ths t) \<lparr>acquired_mutexes_th := acquired_mutexes_th (ths t) + 1\<rparr>)"

definition dec_acquired :: "tid \<Rightarrow> thread_store \<Rightarrow> thread_store" where
  "dec_acquired t ths = ths (t := (ths t) \<lparr>acquired_mutexes_th := acquired_mutexes_th (ths t) - 1\<rparr>)"

subsection \<open>The mutex object\<close>

datatype type_t = normal | errorcheck | recursive | type_default

datatype protocol_t = none | inherit | protect

datatype robustness_t = stalled | robust

text \<open>
  The members of \<^verbatim>\<open>mutex\<close>. \<^verbatim>\<open>owner_\<close> is a pointer to a thread or \<^verbatim>\<open>nullptr\<close>;
  \<^verbatim>\<open>list_\<close> is the list of waiting threads, head first. The recursion counters are
  only incremented below \<^verbatim>\<open>max_count_\<close> and only decremented above 1, so they are
  natural numbers.
\<close>

record mutex =
  type_mx :: type_t
  protocol_mx :: protocol_t
  robustness_mx :: robustness_t
  max_count_mx :: nat
  prio_ceiling_mx :: priority_t
  owner_mx :: "tid option"
  count_mx :: nat
  list_mx :: "tid list"
  owner_prio_mx :: priority_t
  boosted_prio_mx :: priority_t
  consistent_mx :: bool
  recoverable_mx :: bool

text \<open>
  The system state seen by a mutex call: the mutex, the threads, whether the caller
  is an interrupt handler (\<^verbatim>\<open>interrupts::in_handler_mode ()\<close>), whether the scheduler
  is locked (\<^verbatim>\<open>scheduler::locked ()\<close>) and the reading of the mutex clock
  (\<^verbatim>\<open>clock_->steady_now ()\<close>, a 64-bit timestamp).
\<close>

record sys =
  mx :: mutex
  threads :: thread_store
  in_handler_mode :: bool
  sched_locked :: bool
  steady_now :: "64 word"

subsection \<open>The list of waiting threads\<close>

text \<open>
  Modelled from the spec: \<^verbatim>\<open>waiting_threads_list\<close> and the scheduler's
  \<^verbatim>\<open>_link_node\<close> and \<^verbatim>\<open>_unlink_node\<close>, whose bodies are missing from the sources.
  The specification describes the list as priority-ordered with ties broken FIFO,
  unlinking as idempotent, \<^verbatim>\<open>resume_one\<close> as resuming the earliest linked thread of
  the highest priority (the head of the ordered list) and \<^verbatim>\<open>resume_all\<close> as waking
  every waiter. A thread is resumed by taking it off the list.
\<close>

fun link_list :: "thread_store \<Rightarrow> tid \<Rightarrow> tid list \<Rightarrow> tid list" where
  "link_list ths n [] = [n]"
| "link_list ths n (w # ws) =
     (if priority (ths w) < priority (ths n) then n # w # ws
      else w # link_list ths n ws)"

definition link_node :: "tid \<Rightarrow> sys \<Rightarrow> sys" where
  "link_node n s = s \<lparr>mx := (mx s) \<lparr>list_mx := link_list (threads s) n (list_mx (mx s))\<rparr>\<rparr>"

definition unlink_node :: "tid \<Rightarrow> sys \<Rightarrow> sys" where
  "unlink_node n s = s \<lparr>mx := (mx s) \<lparr>list_mx := remove1 n (list_mx (mx s))\<rparr>\<rparr>"

definition resume_one :: "tid list \<Rightarrow> tid list" where
  "resume_one ws = (case ws of [] \<Rightarrow> [] | w # ws' \<Rightarrow> ws')"

definition resume_all :: "tid list \<Rightarrow> tid list" where
  "resume_all ws = []"

subsection \<open>Acquisition\<close>

text \<open>
  \<^verbatim>\<open>mutex::_try_lock (crt_thread)\<close>, called from a scheduler critical section.
  The uncritical sections around the priority changes only let the scheduler see
  the new priority; they do not change the data.
\<close>

definition try_lock_internal :: "tid \<Rightarrow> sys \<Rightarrow> result_t \<times> sys" where
  "try_lock_internal crt s =
     (case owner_mx (mx s) of
        None \<Rightarrow>
          (let s1 = s \<lparr>mx := (mx s) \<lparr>owner_mx := Some crt, count_mx := 1\<rparr>,
                        threads := inc_acquired crt (threads s)\<rparr>
           in if protocol_mx (mx s1) = inherit then
                (ok, s1 \<lparr>mx := (mx s1) \<lparr>owner_prio_mx := priority (threads s1 crt)\<rparr>\<rparr>)
              else if protocol_mx (mx s1) = protect then
                (if prio_ceiling_mx (mx s1) < priority (threads s1 crt) then (EINVAL, s1)
                 else
                   (let s2 = s1 \<lparr>mx := (mx s1) \<lparr>owner_prio_mx := priority (threads s1 crt)\<rparr>\<rparr>
                    in if owner_prio_mx (mx s2) < prio_ceiling_mx (mx s2) then
                         (let s3 = s2 \<lparr>mx := (mx s2) \<lparr>boosted_prio_mx := prio_ceiling_mx (mx s2)\<rparr>\<rparr>
                          in (ok, s3 \<lparr>threads :=
                                 set_priority crt (boosted_prio_mx (mx s3)) (threads s3)\<rparr>))
                       else (ok, s2)))
              else (ok, s1))
      | Some saved_owner \<Rightarrow>
          (if saved_owner = crt then
             (if type_mx (mx s) = recursive then
                (if max_count_mx (mx s) \<le> count_mx (mx s) then (EAGAIN, s)
                 else (ok, s \<lparr>mx := (mx s) \<lparr>count_mx := count_mx (mx s) + 1\<rparr>\<rparr>))
              else if type_mx (mx s) = errorcheck then (EDEADLK, s)
              else if type_mx (mx s) = normal then (EWOULDBLOCK, s)
              else (EWOULDBLOCK, s))
           else
             (if protocol_mx (mx s) = inherit then
                (let prio = priority (threads s crt)
                 in if priority (threads s saved_owner) < prio then
                      (EWOULDBLOCK,
                       s \<lparr>mx := (mx s) \<lparr>boosted_prio_mx := prio\<rparr>,
                          threads := set_priority saved_owner prio (threads s)\<rparr>)
                    else (EWOULDBLOCK, s))
              else (EWOULDBLOCK, s))))"

text \<open>
  Modelled from the spec: the macros \<^verbatim>\<open>os_assert_err (c, e)\<close> and
  \<^verbatim>\<open>os_assert_throw (c, e)\<close>, whose definitions are missing from the sources. The
  specification has the calls that are forbidden in a context fail with the error
  code: when \<open>c\<close> does not hold, the function returns \<open>e\<close> (the constructor is left
  with \<open>e\<close>) and nothing after the macro is executed.
\<close>

text \<open>\<^verbatim>\<open>mutex::try_lock ()\<close>, called by thread \<open>crt\<close>.\<close>

definition try_lock :: "tid \<Rightarrow> sys \<Rightarrow> result_t \<times> sys" where
  "try_lock crt s =
     (if in_handler_mode s then (EPERM, s)
      else if \<not> recoverable_mx (mx s) then (ENOTRECOVERABLE, s)
      else try_lock_internal crt s)"

subsection \<open>Release\<close>

text \<open>\<^verbatim>\<open>mutex::unlock ()\<close>, called by thread \<open>crt\<close>.\<close>

definition unlock :: "tid \<Rightarrow> sys \<Rightarrow> result_t \<times> sys" where
  "unlock crt s =
     (if in_handler_mode s then (EPERM, s)
      else if owner_mx (mx s) = Some crt then
        (if type_mx (mx s) = recursive \<and> 1 < count_mx (mx s) then
           (ok, s \<lparr>mx := (mx s) \<lparr>count_mx := count_mx (mx s) - 1\<rparr>\<rparr>)
         else
           (let s1 = (if boosted_prio_mx (mx s) \<noteq> priority_none then
                        s \<lparr>threads := set_priority crt (owner_prio_mx (mx s)) (threads s),
                           mx := (mx s) \<lparr>boosted_prio_mx := priority_none\<rparr>\<rparr>
                      else s);
                s2 = s1 \<lparr>mx := (mx s1) \<lparr>list_mx := resume_one (list_mx (mx s1))\<rparr>\<rparr>;
                s3 = s2 \<lparr>threads := dec_acquired crt (threads s2)\<rparr>
            in (ok, s3 \<lparr>mx := (mx s3) \<lparr>owner_mx := None, count_mx := 0\<rparr>\<rparr>)))
      else if type_mx (mx s) = errorcheck \<or> type_mx (mx s) = recursive
              \<or> robustness_mx (mx s) = robust then (EPERM, s)
      else (ENOTRECOVERABLE, s))"

subsection \<open>Blocking calls\<close>

text \<open>
  \<open>lock\<close> and \<open>timed_lock\<close> suspend the caller in \<^verbatim>\<open>port::scheduler::reschedule ()\<close>.
  What the other threads, the clock and the interrupt handlers do until the caller
  runs again is an environment step, a function on the system state; a blocking call
  receives the list of the environment steps of its successive suspensions. A call
  either returns, or is still suspended when the list is used up (with the state at
  that suspension), or faults by dereferencing a null owner pointer.
\<close>

type_synonym env_step = "sys \<Rightarrow> sys"

datatype 'a outcome = Returned 'a | Suspended sys | Fault

text \<open>The \<^verbatim>\<open>for (;;)\<close> loop of \<^verbatim>\<open>mutex::lock ()\<close>.\<close>

fun lock_loop :: "tid \<Rightarrow> env_step list \<Rightarrow> sys \<Rightarrow> (result_t \<times> sys) outcome" where
  "lock_loop crt [] s =
     (case try_lock_internal crt s of
        (res, s1) \<Rightarrow>
          if res \<noteq> EWOULDBLOCK then Returned (res, s1)
          else Suspended (link_node crt s1))"
| "lock_loop crt (e # es) s =
     (case try_lock_internal crt s of
        (res, s1) \<Rightarrow>
          if res \<noteq> EWOULDBLOCK then Returned (res, s1)
          else
            (let s2 = link_node crt s1;
                 s3 = e s2;
                 s4 = unlink_node crt s3
             in if interrupted (threads s4 crt) then Returned (EINTR, s4)
                else lock_loop crt es s4))"

text \<open>\<^verbatim>\<open>mutex::lock ()\<close>, called by thread \<open>crt\<close>.\<close>

definition lock :: "tid \<Rightarrow> env_step list \<Rightarrow> sys \<Rightarrow> (result_t \<times> sys) outcome" where
  "lock crt es s =
     (if in_handler_mode s then Returned (EPERM, s)
      else if sched_locked s then Returned (EPERM, s)
      else if \<not> recoverable_mx (mx s) then Returned (ENOTRECOVERABLE, s)
      else
        (case try_lock_internal crt s of
           (res, s1) \<Rightarrow>
             if res \<noteq> EWOULDBLOCK then Returned (res, s1)
             else lock_loop crt es s1))"

text \<open>
  The scan of the waiting list in the failure path of \<^verbatim>\<open>timed_lock\<close>: the highest
  priority of the threads on the list, starting from \<open>max_prio\<close>.
\<close>

fun max_prio_scan :: "thread_store \<Rightarrow> tid list \<Rightarrow> priority_t \<Rightarrow> priority_t" where
  "max_prio_scan ths [] max_prio = max_prio"
| "max_prio_scan ths (w # ws) max_prio =
     max_prio_scan ths ws
       (if max_prio < priority (ths w) then priority (ths w) else max_prio)"

text \<open>
  The block \<^verbatim>\<open>if (boosted_prio_ != thread::priority::none) { ... }\<close> run by
  \<^verbatim>\<open>timed_lock\<close> before it returns \<^verbatim>\<open>EINTR\<close> or \<^verbatim>\<open>ETIMEDOUT\<close>. \<open>None\<close> is the
  dereference of a null \<^verbatim>\<open>owner_\<close>.
\<close>

definition restore_boost :: "sys \<Rightarrow> sys option" where
  "restore_boost s =
     (if boosted_prio_mx (mx s) \<noteq> priority_none then
        (let max_prio = max_prio_scan (threads s) (list_mx (mx s)) priority_none
         in if max_prio \<noteq> priority_none then
              (case owner_mx (mx s) of
                 None \<Rightarrow> None
               | Some ow \<Rightarrow>
                   Some (s \<lparr>mx := (mx s) \<lparr>boosted_prio_mx := max_prio\<rparr>,
                            threads := set_priority ow max_prio (threads s)\<rparr>))
            else Some s)
      else Some s)"

text \<open>
  The checks of \<^verbatim>\<open>timed_lock\<close> after a wakeup, in the order of the source:
  \<^verbatim>\<open>res = result::ok\<close>, then the interruption flag, else the clock against the
  deadline.
\<close>

definition wakeup_result :: "tid \<Rightarrow> 64 word \<Rightarrow> sys \<Rightarrow> result_t" where
  "wakeup_result crt timeout_timestamp s =
     (if interrupted (threads s crt) then EINTR
      else if timeout_timestamp \<le> steady_now s then ETIMEDOUT
      else ok)"

text \<open>
  The \<^verbatim>\<open>for (;;)\<close> loop of \<^verbatim>\<open>mutex::timed_lock ()\<close>. The timeout node that is linked
  into the list of the clock belongs to the environment: the clock wakes the thread
  in an environment step.
\<close>

fun timed_lock_loop ::
  "tid \<Rightarrow> 64 word \<Rightarrow> env_step list \<Rightarrow> sys \<Rightarrow> (result_t \<times> sys) outcome" where
  "timed_lock_loop crt timeout_timestamp [] s =
     (case try_lock_internal crt s of
        (res, s1) \<Rightarrow>
          if res \<noteq> EWOULDBLOCK then Returned (res, s1)
          else Suspended (link_node crt s1))"
| "timed_lock_loop crt timeout_timestamp (e # es) s =
     (case try_lock_internal crt s of
        (res, s1) \<Rightarrow>
          if res \<noteq> EWOULDBLOCK then Returned (res, s1)
          else
            (let s2 = link_node crt s1;
                 s3 = e s2;
                 s4 = unlink_node crt s3;
                 res' = wakeup_result crt timeout_timestamp s4
             in if res' \<noteq> ok then
                  (case restore_boost s4 of
                     None \<Rightarrow> Fault
                   | Some s5 \<Rightarrow> Returned (res', s5))
                else timed_lock_loop crt timeout_timestamp es s4))"

text \<open>
  \<^verbatim>\<open>mutex::timed_lock (timeout)\<close>, called by thread \<open>crt\<close>; \<^verbatim>\<open>clock::duration_t\<close> is
  a 32-bit number of clock units, added to the 64-bit timestamp.
\<close>

definition timed_lock ::
  "tid \<Rightarrow> 32 word \<Rightarrow> env_step list \<Rightarrow> sys \<Rightarrow> (result_t \<times> sys) outcome" where
  "timed_lock crt timeout es s =
     (if in_handler_mode s then Returned (EPERM, s)
      else if sched_locked s then Returned (EPERM, s)
      else if \<not> recoverable_mx (mx s) then Returned (ENOTRECOVERABLE, s)
      else
        (case try_lock_internal crt s of
           (res, s1) \<Rightarrow>
             if res \<noteq> EWOULDBLOCK then Returned (res, s1)
             else timed_lock_loop crt (steady_now s1 + ucast timeout) es s1))"

text \<open>
  The state in which the caller runs again after an attempt in \<open>s\<close> that would
  block: its node is linked, the environment does \<open>e\<close> while it is suspended, and
  the node is unlinked. This is the state \<open>s4\<close> of the two loops.
\<close>

definition resumed :: "tid \<Rightarrow> env_step \<Rightarrow> sys \<Rightarrow> sys" where
  "resumed crt e s = unlink_node crt (e (link_node crt (snd (try_lock_internal crt s))))"

subsection \<open>Priority ceiling\<close>

text \<open>\<^verbatim>\<open>mutex::prio_ceiling ()\<close>.\<close>

definition prio_ceiling :: "sys \<Rightarrow> priority_t" where
  "prio_ceiling s = prio_ceiling_mx (mx s)"

text \<open>
  \<^verbatim>\<open>mutex::prio_ceiling (prio_ceiling, old_prio_ceiling)\<close>, called by thread \<open>crt\<close>.
  \<open>want_old\<close> says that \<^verbatim>\<open>old_prio_ceiling\<close> is not null; the second component of
  the result is what was stored through it, if anything. The result of the inner
  \<^verbatim>\<open>unlock ()\<close> is dropped, as in the source.
\<close>

definition prio_ceiling_set ::
  "tid \<Rightarrow> priority_t \<Rightarrow> bool \<Rightarrow> env_step list \<Rightarrow> sys
     \<Rightarrow> (result_t \<times> priority_t option \<times> sys) outcome" where
  "prio_ceiling_set crt new_ceiling want_old es s =
     (if in_handler_mode s then Returned (EPERM, None, s)
      else
        (case lock crt es s of
           Fault \<Rightarrow> Fault
         | Suspended s' \<Rightarrow> Suspended s'
         | Returned (res, s1) \<Rightarrow>
             if res \<noteq> ok then Returned (res, None, s1)
             else
               (let old = (if want_old then Some (prio_ceiling_mx (mx s1)) else None);
                    s2 = s1 \<lparr>mx := (mx s1) \<lparr>prio_ceiling_mx := new_ceiling\<rparr>\<rparr>;
                    s3 = snd (unlock crt s2)
                in Returned (ok, old, s3))))"

subsection \<open>Initialisation, consistency, reset\<close>

text \<open>\<^verbatim>\<open>mutex::_init ()\<close>.\<close>

definition mutex_init :: "mutex \<Rightarrow> mutex" where
  "mutex_init m =
     m \<lparr>count_mx := 0, consistent_mx := True, recoverable_mx := True,
        list_mx := resume_all (list_mx m)\<rparr>"

text \<open>\<^verbatim>\<open>mutex::reset ()\<close>.\<close>

definition reset :: "sys \<Rightarrow> result_t \<times> sys" where
  "reset s =
     (if in_handler_mode s then (EPERM, s)
      else (ok, s \<lparr>mx := mutex_init (mx s)\<rparr>))"

text \<open>\<^verbatim>\<open>mutex::consistent ()\<close>.\<close>

definition consistent :: "sys \<Rightarrow> result_t \<times> sys" where
  "consistent s =
     (if in_handler_mode s then (EPERM, s)
      else if robustness_mx (mx s) \<noteq> robust then (EINVAL, s)
      else if consistent_mx (mx s) then (EINVAL, s)
      else (ok, s \<lparr>mx := (mx s) \<lparr>consistent_mx := True\<rparr>\<rparr>))"

subsection \<open>Construction\<close>

text \<open>The members of \<^verbatim>\<open>mutex::attributes\<close> read by the constructor.\<close>

record attributes =
  mx_type :: type_t
  mx_protocol :: protocol_t
  mx_robustness :: robustness_t
  mx_priority_ceiling :: priority_t
  mx_max_count :: nat

text \<open>
  Modelled from the spec: the in-class initialisers of the members that the
  constructor does not assign (the class declaration is missing from the sources).
  The specification has a new mutex with no owner, no waiters and no boost.
\<close>

definition member_defaults :: mutex where
  "member_defaults =
     \<lparr>type_mx = type_default, protocol_mx = none, robustness_mx = stalled,
      max_count_mx = 1, prio_ceiling_mx = priority_none, owner_mx = None,
      count_mx = 0, list_mx = [], owner_prio_mx = priority_none,
      boosted_prio_mx = priority_none, consistent_mx = True, recoverable_mx = True\<rparr>"

text \<open>
  \<^verbatim>\<open>mutex::mutex (name, attr)\<close>, with \<open>handler_mode\<close> the value of
  \<^verbatim>\<open>interrupts::in_handler_mode ()\<close>; the result is the error of a failed
  \<^verbatim>\<open>os_assert_throw\<close> or the constructed mutex.
\<close>

definition mutex_ctor :: "attributes \<Rightarrow> bool \<Rightarrow> result_t + mutex" where
  "mutex_ctor attr handler_mode =
     (let m = member_defaults
                \<lparr>type_mx := mx_type attr, protocol_mx := mx_protocol attr,
                 robustness_mx := mx_robustness attr,
                 max_count_mx := (if mx_type attr = recursive then mx_max_count attr else 1)\<rparr>
      in if handler_mode then Inl EPERM
         else
           (let m1 = m \<lparr>prio_ceiling_mx := mx_priority_ceiling attr\<rparr>
            in if robustness_mx m1 = robust then Inl ENOTSUP
               else Inr (mutex_init m1)))"

subsection \<open>Scenarios\<close>

text \<open>
  Concrete attributes, threads and system states for the end-to-end scenarios:
  attributes of a non-robust mutex, the mutex the constructor builds from them in
  thread context, a new thread of a given priority, a store of threads of one
  priority, a thread-context state with a stopped clock at zero, and the clock
  advancing while a thread is suspended.
\<close>

definition attrs :: "type_t \<Rightarrow> protocol_t \<Rightarrow> priority_t \<Rightarrow> nat \<Rightarrow> attributes" where
  "attrs ty pr ceiling maxc =
     \<lparr>mx_type = ty, mx_protocol = pr, mx_robustness = stalled,
      mx_priority_ceiling = ceiling, mx_max_count = maxc\<rparr>"

definition new_mutex :: "attributes \<Rightarrow> mutex" where
  "new_mutex attr = (case mutex_ctor attr False of Inr m \<Rightarrow> m | Inl e \<Rightarrow> member_defaults)"

definition thread_at :: "priority_t \<Rightarrow> thread" where
  "thread_at p = \<lparr>prio_th = p, acquired_mutexes_th = 0, interrupted_th = False\<rparr>"

definition same_priority :: "priority_t \<Rightarrow> thread_store" where
  "same_priority p = (\<lambda>t. thread_at p)"

definition thread_context :: "mutex \<Rightarrow> thread_store \<Rightarrow> sys" where
  "thread_context m ths =
     \<lparr>mx = m, threads = ths, in_handler_mode = False, sched_locked = False, steady_now = 0\<rparr>"

definition clock_advance :: "64 word \<Rightarrow> env_step" where
  "clock_advance d s = s \<lparr>steady_now := steady_now s + d\<rparr>"

text \<open>The environment interrupting thread \<open>t\<close>.\<close>

definition interrupt :: "tid \<Rightarrow> env_step" where
  "interrupt t s = s \<lparr>threads := (threads s) (t := (threads s t) \<lparr>interrupted_th := True\<rparr>)\<rparr>"

text \<open>A \<open>protect\<close> mutex with ceiling 20 and threads of priority 30.\<close>

definition over_ceiling :: sys where
  "over_ceiling = thread_context (new_mutex (attrs normal protect 20 1)) (same_priority 30)"

text \<open>A \<open>protect\<close> mutex with ceiling 30 and threads of priority 20.\<close>

definition under_ceiling :: sys where
  "under_ceiling = thread_context (new_mutex (attrs normal protect 30 1)) (same_priority 20)"

text \<open>A plain normal mutex and threads of priority 20.\<close>

definition plain :: sys where
  "plain = thread_context (new_mutex (attrs normal none 0 1)) (same_priority 20)"

definition plain_locked :: sys where
  "plain_locked =
     plain \<lparr>mx := (mx plain) \<lparr>owner_mx := Some 1, count_mx := 1\<rparr>,
            threads := inc_acquired 1 (threads plain)\<rparr>"

text \<open>An \<open>inherit\<close> mutex held by thread 1 of priority 10; thread 2 has priority 30.\<close>

definition inherit_free :: sys where
  "inherit_free =
     thread_context (new_mutex (attrs normal inherit 0 1))
       ((same_priority 20) (1 := thread_at 10, 2 := thread_at 30))"

definition inherit_held :: sys where
  "inherit_held =
     inherit_free \<lparr>mx := (mx inherit_free) \<lparr>owner_mx := Some 1, count_mx := 1, owner_prio_mx := 10\<rparr>,
                   threads := inc_acquired 1 (threads inherit_free)\<rparr>"

text \<open>A recursive mutex with the recursion limit \<open>maxc\<close>, held \<open>n\<close> deep by thread 1.\<close>

definition recursive_free :: "nat \<Rightarrow> sys" where
  "recursive_free maxc =
     thread_context (new_mutex (attrs recursive none 0 maxc)) (same_priority 20)"

definition recursive_held :: "nat \<Rightarrow> nat \<Rightarrow> sys" where
  "recursive_held maxc n =
     (recursive_free maxc)
       \<lparr>mx := (mx (recursive_free maxc)) \<lparr>owner_mx := Some 1, count_mx := n\<rparr>,
        threads := inc_acquired 1 (threads (recursive_free maxc))\<rparr>"

text \<open>A mutex of the given type held once by thread 1.\<close>

definition typed_held :: "type_t \<Rightarrow> sys" where
  "typed_held ty =
     (thread_context (new_mutex (attrs ty none 0 1)) (same_priority 20))
       \<lparr>mx := (new_mutex (attrs ty none 0 1)) \<lparr>owner_mx := Some 1, count_mx := 1\<rparr>,
        threads := inc_acquired 1 (same_priority 20)\<rparr>"

section \<open>Properties\<close>

text \<open>The definitions unfolded to evaluate the scenarios and the calls.\<close>

lemmas scenario_defs =
  attrs_def new_mutex_def mutex_ctor_def member_defaults_def mutex_init_def resume_all_def
  thread_at_def same_priority_def thread_context_def clock_advance_def interrupt_def
  over_ceiling_def under_ceiling_def plain_def plain_locked_def inherit_free_def
  inherit_held_def recursive_free_def recursive_held_def typed_held_def

lemmas call_defs =
  lock_def try_lock_def try_lock_internal_def unlock_def timed_lock_def reset_def
  prio_ceiling_set_def prio_ceiling_def restore_boost_def wakeup_result_def
  resumed_def link_node_def unlink_node_def resume_one_def inc_acquired_def dec_acquired_def
  set_priority_def priority_def interrupted_def priority_none_def EAGAIN_def Let_def

subsection \<open>Facts about acquisition and the timed wait\<close>

text \<open>\<open>_try_lock\<close> never touches the calling context or the clock.\<close>

lemma try_lock_internal_keeps_context:
  "in_handler_mode (snd (try_lock_internal crt s)) = in_handler_mode s"
  "sched_locked (snd (try_lock_internal crt s)) = sched_locked s"
  "steady_now (snd (try_lock_internal crt s)) = steady_now s"
  by (simp_all add: try_lock_internal_def Let_def split: option.split)

text \<open>The result codes of \<open>_try_lock\<close>; a timeout is not among them.\<close>

lemma try_lock_internal_codes:
  "fst (try_lock_internal crt s) \<in> {ok, EINVAL, EAGAIN, EDEADLK, EWOULDBLOCK}"
  by (simp add: try_lock_internal_def EAGAIN_def Let_def split: option.split)

lemma try_lock_internal_not_timedout:
  "fst (try_lock_internal crt s) \<noteq> ETIMEDOUT"
  using try_lock_internal_codes [of crt s] by (auto simp add: EAGAIN_def)

text \<open>One turn of the loop of \<open>timed_lock\<close> after an attempt that would block.\<close>

lemma timed_lock_loop_step:
  assumes "fst (try_lock_internal crt s) = EWOULDBLOCK"
  shows "timed_lock_loop crt d (e # es) s =
           (if interrupted (threads (resumed crt e s) crt) then
              (case restore_boost (resumed crt e s) of
                 None \<Rightarrow> Fault | Some s5 \<Rightarrow> Returned (EINTR, s5))
            else if d \<le> steady_now (resumed crt e s) then
              (case restore_boost (resumed crt e s) of
                 None \<Rightarrow> Fault | Some s5 \<Rightarrow> Returned (ETIMEDOUT, s5))
            else timed_lock_loop crt d es (resumed crt e s))"
  using assms
  by (cases "try_lock_internal crt s") (simp add: Let_def wakeup_result_def resumed_def)

text \<open>
  When the loop of \<open>timed_lock\<close> returns \<open>ETIMEDOUT\<close>, it does so at a wakeup that
  follows an attempt which would block, with the thread not interrupted and the clock
  at or past the deadline.
\<close>

lemma timed_lock_loop_timedout:
  "timed_lock_loop crt d es s = Returned (ETIMEDOUT, s') \<Longrightarrow>
     \<exists>pre e post. es = pre @ e # post
       \<and> fst (try_lock_internal crt (fold (resumed crt) pre s)) = EWOULDBLOCK
       \<and> \<not> interrupted (threads (resumed crt e (fold (resumed crt) pre s)) crt)
       \<and> d \<le> steady_now (resumed crt e (fold (resumed crt) pre s))
       \<and> restore_boost (resumed crt e (fold (resumed crt) pre s)) = Some s'"
proof (induction es arbitrary: s)
  case Nil
  then show ?case
    using try_lock_internal_not_timedout [of crt s]
    by (auto split: prod.splits if_splits)
next
  case (Cons e es)
  show ?case
  proof (cases "fst (try_lock_internal crt s) = EWOULDBLOCK")
    case False
    with Cons.prems show ?thesis
      using try_lock_internal_not_timedout [of crt s]
      by (auto split: prod.splits if_splits)
  next
    case wb: True
    let ?s4 = "resumed crt e s"
    from wb Cons.prems have eq:
      "(if interrupted (threads ?s4 crt) then
          (case restore_boost ?s4 of None \<Rightarrow> Fault | Some s5 \<Rightarrow> Returned (EINTR, s5))
        else if d \<le> steady_now ?s4 then
          (case restore_boost ?s4 of None \<Rightarrow> Fault | Some s5 \<Rightarrow> Returned (ETIMEDOUT, s5))
        else timed_lock_loop crt d es ?s4) = Returned (ETIMEDOUT, s')"
      by (simp only: timed_lock_loop_step)
    show ?thesis
    proof (cases "interrupted (threads ?s4 crt)")
      case True
      with eq show ?thesis by (auto split: option.splits)
    next
      case ni: False
      show ?thesis
      proof (cases "d \<le> steady_now ?s4")
        case True
        with ni eq have "restore_boost ?s4 = Some s'" by (auto split: option.splits)
        with True ni wb show ?thesis
          by (intro exI [of _ "[]"] exI [of _ e] exI [of _ es]) simp
      next
        case False
        with ni eq have "timed_lock_loop crt d es ?s4 = Returned (ETIMEDOUT, s')" by simp
        from Cons.IH [OF this] obtain pre e' post where
          "es = pre @ e' # post"
          "fst (try_lock_internal crt (fold (resumed crt) pre ?s4)) = EWOULDBLOCK"
          "\<not> interrupted (threads (resumed crt e' (fold (resumed crt) pre ?s4)) crt)"
          "d \<le> steady_now (resumed crt e' (fold (resumed crt) pre ?s4))"
          "restore_boost (resumed crt e' (fold (resumed crt) pre ?s4)) = Some s'"
          by blast
        then show ?thesis
          by (intro exI [of _ "e # pre"] exI [of _ e'] exI [of _ post]) simp
      qed
    qed
  qed
qed

text \<open>
  A thread that waits for a mutex of the default type which it owns itself stays
  suspended, as long as the environment leaves it the owner and does not interrupt it.
\<close>

lemma lock_loop_blocks_on_itself:
  assumes "\<And>e s'. e \<in> set es \<Longrightarrow> owner_mx (mx s') = Some crt
             \<Longrightarrow> type_mx (mx s') = type_default \<Longrightarrow> \<not> interrupted (threads s' crt)
             \<Longrightarrow> owner_mx (mx (e s')) = Some crt \<and> type_mx (mx (e s')) = type_default
                 \<and> \<not> interrupted (threads (e s') crt)"
    and "owner_mx (mx s) = Some crt" and "type_mx (mx s) = type_default"
    and "\<not> interrupted (threads s crt)"
  shows "\<exists>s'. lock_loop crt es s = Suspended s'"
  using assms
proof (induction es arbitrary: s)
  case Nil
  then show ?case by (simp add: try_lock_internal_def)
next
  case (Cons e es)
  have tl: "try_lock_internal crt s = (EWOULDBLOCK, s)"
    using Cons.prems(2,3) by (simp add: try_lock_internal_def)
  let ?s2 = "link_node crt s"
  have "owner_mx (mx ?s2) = Some crt" "type_mx (mx ?s2) = type_default"
    "\<not> interrupted (threads ?s2 crt)"
    using Cons.prems(2,3,4) by (simp_all add: link_node_def)
  with Cons.prems(1) [of e ?s2]
  have after: "owner_mx (mx (e ?s2)) = Some crt \<and> type_mx (mx (e ?s2)) = type_default
                 \<and> \<not> interrupted (threads (e ?s2) crt)" by simp
  let ?s4 = "unlink_node crt (e ?s2)"
  have s4: "owner_mx (mx ?s4) = Some crt" "type_mx (mx ?s4) = type_default"
    "\<not> interrupted (threads ?s4 crt)"
    using after by (simp_all add: unlink_node_def)
  have "\<exists>s'. lock_loop crt es ?s4 = Suspended s'"
    using Cons.prems(1) s4 by (intro Cons.IH) auto
  with tl s4 show ?case by (simp add: Let_def)
qed

text \<open>
  At the recursion limit \<open>_try_lock\<close> returns \<open>EAGAIN\<close>, which the callers cannot
  tell from \<open>EWOULDBLOCK\<close>: \<open>lock\<close> and the ceiling setter suspend the owner on its
  own mutex, and \<open>timed_lock\<close> waits and returns \<open>ETIMEDOUT\<close> at the deadline.
\<close>

lemma recursion_limit_waits:
  "try_lock_internal 1 (recursive_held 3 3) = (EAGAIN, recursive_held 3 3)
   \<and> lock 1 [] (recursive_held 3 3) = Suspended (link_node 1 (recursive_held 3 3))
   \<and> timed_lock 1 5 [clock_advance 5] (recursive_held 3 3) =
       Returned (ETIMEDOUT, (recursive_held 3 3) \<lparr>steady_now := 5\<rparr>)
   \<and> prio_ceiling_set 1 40 True [] (recursive_held 3 3)
       = Suspended (link_node 1 (recursive_held 3 3))"
  by (simp add: scenario_defs call_defs)

text \<open>
  An unowned \<open>protect\<close> mutex and a caller above the ceiling: \<open>_try_lock\<close> has
  already made the caller the owner when it returns \<open>EINVAL\<close>.
\<close>

lemma try_lock_internal_over_ceiling:
  assumes "owner_mx (mx s) = None" and "protocol_mx (mx s) = protect"
    and "prio_ceiling_mx (mx s) < priority (threads s crt)"
  shows "try_lock_internal crt s =
           (EINVAL, s \<lparr>mx := (mx s) \<lparr>owner_mx := Some crt, count_mx := 1\<rparr>,
                       threads := inc_acquired crt (threads s)\<rparr>)"
  using assms by (simp add: try_lock_internal_def Let_def inc_acquired_def priority_def)

text \<open>
  What \<open>reset\<close> assigns when called from a thread; the owner is not among it.
\<close>

lemma reset_effect:
  "\<not> in_handler_mode s \<Longrightarrow>
     reset s = (ok, s \<lparr>mx := (mx s) \<lparr>count_mx := 0, consistent_mx := True,
                                  recoverable_mx := True, list_mx := []\<rparr>\<rparr>)"
  by (simp add: reset_def mutex_init_def resume_all_def)

lemma reset_owner: "owner_mx (mx (snd (reset s))) = owner_mx (mx s)"
  by (simp add: reset_def mutex_init_def)

text \<open>
  The scan of the waiting list yields the maximum of the start value and the
  priorities of the waiting threads.
\<close>

lemma max_prio_scan_fold:
  "max_prio_scan ths ws m = fold max (map (\<lambda>w. priority (ths w)) ws) m"
proof (induction ws arbitrary: m)
  case Nil
  then show ?case by simp
next
  case (Cons w ws)
  have "(if m < priority (ths w) then priority (ths w) else m) = max (priority (ths w)) m"
    by (auto simp add: max_def)
  with Cons.IH show ?case by simp
qed

lemma max_prio_scan_Max:
  "max_prio_scan ths ws m = Max (set (m # map (\<lambda>w. priority (ths w)) ws))"
  by (simp only: max_prio_scan_fold Max.set_eq_fold)

text \<open>
  The failure path of \<open>timed_lock\<close>: with no waiter left nothing is changed; with an
  owner, a boost and a waiter of a priority other than \<open>none\<close>, the boost and the
  priority of the owner become the highest priority on the list.
\<close>

lemma restore_boost_no_waiters:
  "list_mx (mx s) = [] \<Longrightarrow> restore_boost s = Some s"
  by (simp add: restore_boost_def)

lemma restore_boost_waiters:
  assumes "boosted_prio_mx (mx s) \<noteq> priority_none" and "owner_mx (mx s) = Some ow"
    and "max_prio_scan (threads s) (list_mx (mx s)) priority_none \<noteq> priority_none"
  shows "restore_boost s =
           Some (s \<lparr>mx := (mx s) \<lparr>boosted_prio_mx :=
                        max_prio_scan (threads s) (list_mx (mx s)) priority_none\<rparr>,
                    threads := set_priority ow
                        (max_prio_scan (threads s) (list_mx (mx s)) priority_none) (threads s)\<rparr>)"
  using assms by (simp add: restore_boost_def Let_def)

subsection \<open>Over-ceiling acquisition under the protect protocol\<close>

text \<open>
  C1. A \<open>protect\<close> mutex with ceiling 20 is unowned and thread 1 has priority 30.
  Both \<open>lock\<close> and \<open>try_lock\<close> return \<open>EINVAL\<close>, but the acquisition is not backed
  out: the mutex is left owned by thread 1 with count 1 and the acquired-mutex counter
  of the thread has gone from 0 to 1.
\<close>

theorem protect_over_ceiling_not_backed_out:
  "owner_mx (mx over_ceiling) = None \<and> count_mx (mx over_ceiling) = 0
   \<and> protocol_mx (mx over_ceiling) = protect
   \<and> prio_ceiling_mx (mx over_ceiling) < priority (threads over_ceiling 1)
   \<and> lock 1 [] over_ceiling =
       Returned (EINVAL,
         over_ceiling \<lparr>mx := (mx over_ceiling) \<lparr>owner_mx := Some 1, count_mx := 1\<rparr>,
                       threads := inc_acquired 1 (threads over_ceiling)\<rparr>)
   \<and> try_lock 1 over_ceiling =
       (EINVAL,
         over_ceiling \<lparr>mx := (mx over_ceiling) \<lparr>owner_mx := Some 1, count_mx := 1\<rparr>,
                       threads := inc_acquired 1 (threads over_ceiling)\<rparr>)
   \<and> acquired_mutexes_th (threads over_ceiling 1) = 0
   \<and> acquired_mutexes_th (inc_acquired 1 (threads over_ceiling) 1) = 1"
  by (simp add: scenario_defs call_defs)

subsection \<open>Reset\<close>

text \<open>
  C2. A normal mutex is constructed and locked by thread 1. \<open>reset\<close> returns \<open>ok\<close>
  and clears the count, but \<open>_init\<close> does not assign the owner: the mutex still has
  thread 1 as its owner afterwards.
\<close>

theorem reset_keeps_owner:
  "mutex_ctor (attrs normal none 0 1) False = Inr (mx plain)
   \<and> lock 1 [] plain = Returned (ok, plain_locked)
   \<and> reset plain_locked = (ok, plain_locked \<lparr>mx := (mx plain_locked) \<lparr>count_mx := 0\<rparr>\<rparr>)
   \<and> owner_mx (mx (snd (reset plain_locked))) = Some 1"
  by (simp add: scenario_defs call_defs)

subsection \<open>Timed wait and the inherited priority\<close>

text \<open>
  C3. Thread 1 of priority 10 holds an \<open>inherit\<close> mutex; thread 2 of priority 30
  calls \<open>timed_lock\<close> with a timeout of 5 and the clock reaches the deadline while it
  waits. The call returns \<open>ETIMEDOUT\<close>; the waiting list is then empty, the scan finds
  no priority, and the owner keeps the boosted priority 30 (and \<open>boosted_prio_\<close> stays
  30) instead of going back to its saved priority 10.
\<close>

theorem timed_out_last_waiter_owner_stays_boosted:
  "lock 1 [] inherit_free = Returned (ok, inherit_held)
   \<and> timed_lock 2 5 [clock_advance 5] inherit_held =
       Returned (ETIMEDOUT,
         inherit_held \<lparr>mx := (mx inherit_held) \<lparr>boosted_prio_mx := 30\<rparr>,
                       threads := set_priority 1 30 (threads inherit_held),
                       steady_now := 5\<rparr>)
   \<and> list_mx (mx inherit_held) = []
   \<and> owner_prio_mx (mx inherit_held) = 10
   \<and> priority (set_priority 1 30 (threads inherit_held) 1) = 30"
  by (simp add: scenario_defs call_defs)

subsection \<open>Relock by the owner\<close>

text \<open>
  A recursive mutex constructed with the recursion limit 0 and locked once by thread 1
  has count 1, which differs from the limit 0; the relock nevertheless returns
  \<open>EAGAIN\<close>, not success.
\<close>

theorem relock_above_max_count_again:
  "lock 1 [] (recursive_free 0) = Returned (ok, recursive_held 0 1)
   \<and> owner_mx (mx (recursive_held 0 1)) = Some 1
   \<and> type_mx (mx (recursive_held 0 1)) = recursive
   \<and> count_mx (mx (recursive_held 0 1)) = 1
   \<and> max_count_mx (mx (recursive_held 0 1)) = 0
   \<and> try_lock_internal 1 (recursive_held 0 1) = (EAGAIN, recursive_held 0 1)
   \<and> try_lock 1 (recursive_held 0 1) = (EAGAIN, recursive_held 0 1)"
  by (simp add: scenario_defs call_defs)

text \<open>
  C4. For a mutex owned by the calling thread, \<open>_try_lock\<close> returns: for a recursive
  mutex \<open>EAGAIN\<close> with the state unchanged when the count is at or above the limit,
  and otherwise \<open>ok\<close> with the count incremented by one; for an errorcheck mutex
  \<open>EDEADLK\<close> with the state unchanged; for a normal mutex (and for the default type)
  \<open>EWOULDBLOCK\<close> with the state unchanged. \<open>try_lock\<close>, called from a thread on a
  recoverable mutex, returns the same.
\<close>

theorem relock_by_owner:
  assumes "owner_mx (mx s) = Some crt"
  shows "try_lock_internal crt s =
           (case type_mx (mx s) of
              recursive \<Rightarrow>
                if max_count_mx (mx s) \<le> count_mx (mx s) then (EAGAIN, s)
                else (ok, s \<lparr>mx := (mx s) \<lparr>count_mx := count_mx (mx s) + 1\<rparr>\<rparr>)
            | errorcheck \<Rightarrow> (EDEADLK, s)
            | normal \<Rightarrow> (EWOULDBLOCK, s)
            | type_default \<Rightarrow> (EWOULDBLOCK, s))
         \<and> (\<not> in_handler_mode s \<and> recoverable_mx (mx s)
              \<longrightarrow> try_lock crt s = try_lock_internal crt s)"
  using assms by (simp add: try_lock_internal_def try_lock_def split: type_t.split)

theorem relock_by_owner_witness:
  "owner_mx (mx (recursive_held 3 2)) = Some 1
   \<and> try_lock_internal 1 (recursive_held 3 2) = (ok, recursive_held 3 3)
   \<and> try_lock 1 (recursive_held 3 2) = (ok, recursive_held 3 3)
   \<and> owner_mx (mx (recursive_held 3 3)) = Some 1
   \<and> try_lock_internal 1 (recursive_held 3 3) = (EAGAIN, recursive_held 3 3)
   \<and> owner_mx (mx (typed_held errorcheck)) = Some 1
   \<and> try_lock_internal 1 (typed_held errorcheck) = (EDEADLK, typed_held errorcheck)
   \<and> owner_mx (mx (typed_held normal)) = Some 1
   \<and> try_lock_internal 1 (typed_held normal) = (EWOULDBLOCK, typed_held normal)"
proof -
  have o: "owner_mx (mx (recursive_held 3 2)) = Some 1"
    "owner_mx (mx (recursive_held 3 3)) = Some 1"
    "owner_mx (mx (typed_held errorcheck)) = Some 1"
    "owner_mx (mx (typed_held normal)) = Some 1"
    by (simp_all add: scenario_defs)
  have ty: "type_mx (mx (recursive_held 3 2)) = recursive"
    "type_mx (mx (recursive_held 3 3)) = recursive"
    "type_mx (mx (typed_held errorcheck)) = errorcheck"
    "type_mx (mx (typed_held normal)) = normal"
    "max_count_mx (mx (recursive_held 3 2)) = 3" "count_mx (mx (recursive_held 3 2)) = 2"
    "max_count_mx (mx (recursive_held 3 3)) = 3" "count_mx (mx (recursive_held 3 3)) = 3"
    "\<not> in_handler_mode (recursive_held 3 2)" "recoverable_mx (mx (recursive_held 3 2))"
    by (simp_all add: scenario_defs)
  have up: "(recursive_held 3 2) \<lparr>mx := (mx (recursive_held 3 2)) \<lparr>count_mx := 3\<rparr>\<rparr>
              = recursive_held 3 3"
    by (simp add: scenario_defs)
  show ?thesis
    using relock_by_owner [OF o(1)] relock_by_owner [OF o(2)] relock_by_owner [OF o(3)]
      relock_by_owner [OF o(4)] o ty up
    by simp
qed

subsection \<open>Unlock by a thread that is not the owner\<close>

text \<open>
  C5. When \<open>unlock\<close> is called by a thread that is not the owner (the mutex may be
  unowned), it returns \<open>EPERM\<close> if the type is errorcheck or recursive or the mutex is
  robust, and \<open>ENOTRECOVERABLE\<close> otherwise; the whole state, in particular owner,
  count and waiting list, is unchanged.
\<close>

theorem unlock_not_owner:
  assumes "\<not> in_handler_mode s"
    and "owner_mx (mx s) \<noteq> Some crt"
  shows "unlock crt s =
           (if type_mx (mx s) = errorcheck \<or> type_mx (mx s) = recursive
               \<or> robustness_mx (mx s) = robust
            then EPERM else ENOTRECOVERABLE, s)"
  using assms by (simp add: unlock_def)

theorem unlock_not_owner_witness:
  "\<not> in_handler_mode (typed_held errorcheck)
   \<and> owner_mx (mx (typed_held errorcheck)) \<noteq> Some 2
   \<and> unlock 2 (typed_held errorcheck) = (EPERM, typed_held errorcheck)
   \<and> \<not> in_handler_mode (typed_held normal)
   \<and> owner_mx (mx (typed_held normal)) \<noteq> Some 2
   \<and> unlock 2 (typed_held normal) = (ENOTRECOVERABLE, typed_held normal)
   \<and> \<not> in_handler_mode plain
   \<and> owner_mx (mx plain) \<noteq> Some 1
   \<and> unlock 1 plain = (ENOTRECOVERABLE, plain)"
proof -
  have e: "\<not> in_handler_mode (typed_held errorcheck)"
    "owner_mx (mx (typed_held errorcheck)) \<noteq> Some 2"
    by (simp_all add: scenario_defs)
  have n: "\<not> in_handler_mode (typed_held normal)"
    "owner_mx (mx (typed_held normal)) \<noteq> Some 2"
    by (simp_all add: scenario_defs)
  have p: "\<not> in_handler_mode plain" "owner_mx (mx plain) \<noteq> Some 1"
    by (simp_all add: scenario_defs)
  have ty: "type_mx (mx (typed_held errorcheck)) = errorcheck"
    "type_mx (mx (typed_held normal)) = normal"
    "robustness_mx (mx (typed_held normal)) = stalled"
    "type_mx (mx plain) = normal" "robustness_mx (mx plain) = stalled"
    by (simp_all add: scenario_defs)
  show ?thesis
    using unlock_not_owner [OF e] unlock_not_owner [OF n] unlock_not_owner [OF p] e n p ty
    by simp
qed

subsection \<open>Setting the priority ceiling\<close>

text \<open>
  C6. On the unowned \<open>protect\<close> mutex with ceiling 20, thread 1 of priority 30 sets
  the ceiling to 40. The setter acquires the mutex with \<open>lock\<close>, which applies the
  protect protocol: the call fails with \<open>EINVAL\<close>, nothing is stored through the
  out-parameter, the ceiling stays 20 and the mutex is left owned by the caller.
\<close>

theorem prio_ceiling_set_adheres_to_protect:
  "prio_ceiling_set 1 40 True [] over_ceiling =
     Returned (EINVAL, None,
       over_ceiling \<lparr>mx := (mx over_ceiling) \<lparr>owner_mx := Some 1, count_mx := 1\<rparr>,
                     threads := inc_acquired 1 (threads over_ceiling)\<rparr>)
   \<and> prio_ceiling over_ceiling = 20"
  by (simp add: scenario_defs call_defs)

subsection \<open>The order of the checks of the timed wait\<close>

text \<open>
  C7. \<open>timed_lock\<close> does not report a timeout when the mutex can be taken at once:
  called from a thread on a recoverable mutex, if the first \<open>_try_lock\<close> returns
  anything but \<open>EWOULDBLOCK\<close> (which is also the value of \<open>EAGAIN\<close>, so a recursive
  mutex at its limit cannot be taken at once and is waited for), \<open>timed_lock\<close>
  returns just that, for every timeout (zero included) and before the clock is read,
  and it is not \<open>ETIMEDOUT\<close>. After a
  wakeup the loop looks at the interruption flag first, then compares the clock with
  the deadline, and only then tries to acquire again. So when \<open>timed_lock\<close> returns
  \<open>ETIMEDOUT\<close>, the first attempt returned \<open>EWOULDBLOCK\<close>, and after some number of
  wakeups \<open>pre\<close> of the run the attempt of the loop returned \<open>EWOULDBLOCK\<close> and, at
  the wakeup \<open>e'\<close> that followed it, the thread was not interrupted and the clock was
  at or past the deadline \<open>now + timeout\<close>.
\<close>

theorem timed_lock_timeout_order:
  "(\<not> in_handler_mode s \<and> \<not> sched_locked s \<and> recoverable_mx (mx s)
      \<and> fst (try_lock_internal crt s) \<noteq> EWOULDBLOCK
      \<longrightarrow> timed_lock crt timeout es s = Returned (try_lock_internal crt s)
          \<and> fst (try_lock_internal crt s) \<noteq> ETIMEDOUT)
   \<and> (fst (try_lock_internal crt s) = EWOULDBLOCK
      \<longrightarrow> timed_lock_loop crt d (e # es) s =
            (if interrupted (threads (resumed crt e s) crt) then
               (case restore_boost (resumed crt e s) of
                  None \<Rightarrow> Fault | Some s5 \<Rightarrow> Returned (EINTR, s5))
             else if d \<le> steady_now (resumed crt e s) then
               (case restore_boost (resumed crt e s) of
                  None \<Rightarrow> Fault | Some s5 \<Rightarrow> Returned (ETIMEDOUT, s5))
             else timed_lock_loop crt d es (resumed crt e s)))
   \<and> (timed_lock crt timeout es s = Returned (ETIMEDOUT, s')
      \<longrightarrow> fst (try_lock_internal crt s) = EWOULDBLOCK
          \<and> (\<exists>pre e' post. es = pre @ e' # post
                \<and> fst (try_lock_internal crt
                         (fold (resumed crt) pre (snd (try_lock_internal crt s)))) = EWOULDBLOCK
                \<and> \<not> interrupted
                      (threads (resumed crt e'
                         (fold (resumed crt) pre (snd (try_lock_internal crt s)))) crt)
                \<and> steady_now s + ucast timeout
                     \<le> steady_now (resumed crt e'
                          (fold (resumed crt) pre (snd (try_lock_internal crt s))))
                \<and> restore_boost (resumed crt e'
                     (fold (resumed crt) pre (snd (try_lock_internal crt s)))) = Some s'))"
proof (intro conjI impI)
  assume "\<not> in_handler_mode s \<and> \<not> sched_locked s \<and> recoverable_mx (mx s)
      \<and> fst (try_lock_internal crt s) \<noteq> EWOULDBLOCK"
  then show "timed_lock crt timeout es s = Returned (try_lock_internal crt s)"
    by (cases "try_lock_internal crt s") (simp add: timed_lock_def)
next
  show "fst (try_lock_internal crt s) \<noteq> ETIMEDOUT"
    by (rule try_lock_internal_not_timedout)
next
  assume "fst (try_lock_internal crt s) = EWOULDBLOCK"
  then show "timed_lock_loop crt d (e # es) s =
            (if interrupted (threads (resumed crt e s) crt) then
               (case restore_boost (resumed crt e s) of
                  None \<Rightarrow> Fault | Some s5 \<Rightarrow> Returned (EINTR, s5))
             else if d \<le> steady_now (resumed crt e s) then
               (case restore_boost (resumed crt e s) of
                  None \<Rightarrow> Fault | Some s5 \<Rightarrow> Returned (ETIMEDOUT, s5))
             else timed_lock_loop crt d es (resumed crt e s))"
    by (rule timed_lock_loop_step)
next
  assume r: "timed_lock crt timeout es s = Returned (ETIMEDOUT, s')"
  obtain res s1 where t: "try_lock_internal crt s = (res, s1)"
    by (cases "try_lock_internal crt s")
  from r t show w: "fst (try_lock_internal crt s) = EWOULDBLOCK"
    using try_lock_internal_not_timedout [of crt s]
    by (auto simp add: timed_lock_def split: if_splits)
  from t have now: "steady_now s1 = steady_now s"
    using try_lock_internal_keeps_context(3) [of crt s] by simp
  from r t w now have "timed_lock_loop crt (steady_now s + ucast timeout) es s1
                      = Returned (ETIMEDOUT, s')"
    by (auto simp add: timed_lock_def split: if_splits)
  from timed_lock_loop_timedout [OF this] t
  show "\<exists>pre e' post. es = pre @ e' # post
                \<and> fst (try_lock_internal crt
                         (fold (resumed crt) pre (snd (try_lock_internal crt s)))) = EWOULDBLOCK
                \<and> \<not> interrupted
                      (threads (resumed crt e'
                         (fold (resumed crt) pre (snd (try_lock_internal crt s)))) crt)
                \<and> steady_now s + ucast timeout
                     \<le> steady_now (resumed crt e'
                          (fold (resumed crt) pre (snd (try_lock_internal crt s))))
                \<and> restore_boost (resumed crt e'
                     (fold (resumed crt) pre (snd (try_lock_internal crt s)))) = Some s'"
    by simp
qed

theorem timed_lock_timeout_order_witness:
  "\<not> in_handler_mode inherit_free \<and> \<not> sched_locked inherit_free
   \<and> recoverable_mx (mx inherit_free)
   \<and> fst (try_lock_internal 2 inherit_free) \<noteq> EWOULDBLOCK
   \<and> timed_lock 2 0 [] inherit_free = Returned (try_lock_internal 2 inherit_free)
   \<and> fst (try_lock_internal 2 inherit_free) = ok
   \<and> fst (try_lock_internal 2 inherit_held) = EWOULDBLOCK
   \<and> interrupted (threads (resumed 2 (interrupt 2 \<circ> clock_advance 5) inherit_held) 2)
   \<and> 5 \<le> steady_now (resumed 2 (interrupt 2 \<circ> clock_advance 5) inherit_held)
   \<and> timed_lock_loop 2 5 [interrupt 2 \<circ> clock_advance 5] inherit_held =
       Returned (EINTR, resumed 2 (interrupt 2 \<circ> clock_advance 5) inherit_held)
   \<and> timed_lock 2 5 [clock_advance 2, clock_advance 3] inherit_held =
       Returned (ETIMEDOUT,
         inherit_held \<lparr>mx := (mx inherit_held) \<lparr>boosted_prio_mx := 30\<rparr>,
                       threads := set_priority 1 30 (threads inherit_held),
                       steady_now := 5\<rparr>)
   \<and> (\<exists>pre e' post. [clock_advance 2, clock_advance 3] = pre @ e' # post
         \<and> fst (try_lock_internal 2
                  (fold (resumed 2) pre (snd (try_lock_internal 2 inherit_held)))) = EWOULDBLOCK
         \<and> \<not> interrupted
               (threads (resumed 2 e'
                  (fold (resumed 2) pre (snd (try_lock_internal 2 inherit_held)))) 2)
         \<and> steady_now inherit_held + ucast (5 :: 32 word)
              \<le> steady_now (resumed 2 e'
                   (fold (resumed 2) pre (snd (try_lock_internal 2 inherit_held))))
         \<and> restore_boost (resumed 2 e'
              (fold (resumed 2) pre (snd (try_lock_internal 2 inherit_held))))
              = Some (inherit_held \<lparr>mx := (mx inherit_held) \<lparr>boosted_prio_mx := 30\<rparr>,
                                    threads := set_priority 1 30 (threads inherit_held),
                                    steady_now := 5\<rparr>))"
proof -
  have ctx: "\<not> in_handler_mode inherit_free \<and> \<not> sched_locked inherit_free
      \<and> recoverable_mx (mx inherit_free)
      \<and> fst (try_lock_internal 2 inherit_free) \<noteq> EWOULDBLOCK"
    by (simp add: scenario_defs call_defs)
  have acq: "fst (try_lock_internal 2 inherit_free) = ok"
    by (simp add: scenario_defs call_defs)
  have wb: "fst (try_lock_internal 2 inherit_held) = EWOULDBLOCK"
    by (simp add: scenario_defs call_defs)
  have intr: "interrupted (threads (resumed 2 (interrupt 2 \<circ> clock_advance 5) inherit_held) 2)"
    "5 \<le> steady_now (resumed 2 (interrupt 2 \<circ> clock_advance 5) inherit_held)"
    "restore_boost (resumed 2 (interrupt 2 \<circ> clock_advance 5) inherit_held)
       = Some (resumed 2 (interrupt 2 \<circ> clock_advance 5) inherit_held)"
    by (simp_all add: scenario_defs call_defs)
  have out: "timed_lock 2 5 [clock_advance 2, clock_advance 3] inherit_held =
       Returned (ETIMEDOUT,
         inherit_held \<lparr>mx := (mx inherit_held) \<lparr>boosted_prio_mx := 30\<rparr>,
                       threads := set_priority 1 30 (threads inherit_held),
                       steady_now := 5\<rparr>)"
    by (simp add: scenario_defs call_defs)
  from timed_lock_timeout_order [where s = inherit_free and crt = 2 and timeout = 0
      and es = "[]"] ctx
  have fast: "timed_lock 2 0 [] inherit_free = Returned (try_lock_internal 2 inherit_free)"
    by blast
  from timed_lock_timeout_order [where s = inherit_held and crt = 2 and d = 5
      and e = "interrupt 2 \<circ> clock_advance 5" and es = "[]",
      THEN conjunct2, THEN conjunct1, rule_format, OF wb] intr
  have first: "timed_lock_loop 2 5 [interrupt 2 \<circ> clock_advance 5] inherit_held =
       Returned (EINTR, resumed 2 (interrupt 2 \<circ> clock_advance 5) inherit_held)"
    by simp
  from timed_lock_timeout_order [where s = inherit_held and crt = 2 and timeout = 5
      and es = "[clock_advance 2, clock_advance 3]",
      THEN conjunct2, THEN conjunct2, rule_format, OF out]
  have slow: "\<exists>pre e' post. [clock_advance 2, clock_advance 3] = pre @ e' # post
         \<and> fst (try_lock_internal 2
                  (fold (resumed 2) pre (snd (try_lock_internal 2 inherit_held)))) = EWOULDBLOCK
         \<and> \<not> interrupted
               (threads (resumed 2 e'
                  (fold (resumed 2) pre (snd (try_lock_internal 2 inherit_held)))) 2)
         \<and> steady_now inherit_held + ucast (5 :: 32 word)
              \<le> steady_now (resumed 2 e'
                   (fold (resumed 2) pre (snd (try_lock_internal 2 inherit_held))))
         \<and> restore_boost (resumed 2 e'
              (fold (resumed 2) pre (snd (try_lock_internal 2 inherit_held))))
              = Some (inherit_held \<lparr>mx := (mx inherit_held) \<lparr>boosted_prio_mx := 30\<rparr>,
                                    threads := set_priority 1 30 (threads inherit_held),
                                    steady_now := 5\<rparr>)"
    by (rule conjunct2)
  from ctx acq wb intr(1,2) first out fast slow show ?thesis by blast
qed

subsection \<open>Lock followed by unlock\<close>

text \<open>
  C8. On an unowned mutex without waiters and without a boost, for a calling thread
  whose priority does not exceed the ceiling when the protocol is \<open>protect\<close>, \<open>lock\<close>
  returns \<open>ok\<close> without suspending (whatever the environment would do) and makes the
  caller the owner with count 1; the following \<open>unlock\<close> returns \<open>ok\<close> and yields the
  state before the lock: no owner, count 0, no boost, every thread as before (the
  priority and the acquired-mutex counter of the caller included). Only the saved
  owner priority, an internal field, may differ.
\<close>

theorem lock_unlock_round_trip:
  assumes "\<not> in_handler_mode s" and "\<not> sched_locked s" and "recoverable_mx (mx s)"
    and "owner_mx (mx s) = None" and "count_mx (mx s) = 0" and "list_mx (mx s) = []"
    and "boosted_prio_mx (mx s) = priority_none"
    and "protocol_mx (mx s) = protect \<Longrightarrow> priority (threads s crt) \<le> prio_ceiling_mx (mx s)"
  shows "\<exists>s1. lock crt es s = Returned (ok, s1) \<and> owner_mx (mx s1) = Some crt
            \<and> count_mx (mx s1) = 1
            \<and> unlock crt s1 = (ok, s \<lparr>mx := (mx s) \<lparr>owner_prio_mx := owner_prio_mx (mx s1)\<rparr>\<rparr>)"
proof (cases "protocol_mx (mx s)")
  case none
  with assms show ?thesis
    by (simp add: lock_def try_lock_internal_def unlock_def Let_def resume_one_def
      inc_acquired_def dec_acquired_def)
next
  case inherit
  with assms show ?thesis
    by (simp add: lock_def try_lock_internal_def unlock_def Let_def resume_one_def
      inc_acquired_def dec_acquired_def priority_def)
next
  case protect
  with assms have le: "priority (threads s crt) \<le> prio_ceiling_mx (mx s)" by simp
  show ?thesis
  proof (cases "priority (threads s crt) < prio_ceiling_mx (mx s)")
    case True
    then have "prio_ceiling_mx (mx s) \<noteq> priority_none"
      by (auto simp add: priority_none_def)
    with True protect assms show ?thesis
      by (simp add: lock_def try_lock_internal_def unlock_def Let_def resume_one_def
        inc_acquired_def dec_acquired_def priority_def set_priority_def)
  next
    case False
    with le protect assms show ?thesis
      by (simp add: lock_def try_lock_internal_def unlock_def Let_def resume_one_def
        inc_acquired_def dec_acquired_def priority_def set_priority_def)
  qed
qed

theorem lock_unlock_round_trip_witness:
  "\<not> in_handler_mode under_ceiling \<and> \<not> sched_locked under_ceiling
   \<and> recoverable_mx (mx under_ceiling) \<and> owner_mx (mx under_ceiling) = None
   \<and> count_mx (mx under_ceiling) = 0 \<and> list_mx (mx under_ceiling) = []
   \<and> boosted_prio_mx (mx under_ceiling) = priority_none
   \<and> protocol_mx (mx under_ceiling) = protect
   \<and> priority (threads under_ceiling 1) \<le> prio_ceiling_mx (mx under_ceiling)
   \<and> (\<exists>s1. lock 1 [] under_ceiling = Returned (ok, s1) \<and> owner_mx (mx s1) = Some 1
          \<and> count_mx (mx s1) = 1
          \<and> unlock 1 s1 =
              (ok, under_ceiling \<lparr>mx := (mx under_ceiling) \<lparr>owner_prio_mx := owner_prio_mx (mx s1)\<rparr>\<rparr>))"
proof -
  have h: "\<not> in_handler_mode under_ceiling" "\<not> sched_locked under_ceiling"
    "recoverable_mx (mx under_ceiling)" "owner_mx (mx under_ceiling) = None"
    "count_mx (mx under_ceiling) = 0" "list_mx (mx under_ceiling) = []"
    "boosted_prio_mx (mx under_ceiling) = priority_none"
    by (simp_all add: scenario_defs priority_none_def)
  have c: "priority (threads under_ceiling 1) \<le> prio_ceiling_mx (mx under_ceiling)"
    "protocol_mx (mx under_ceiling) = protect"
    by (simp_all add: scenario_defs priority_def)
  show ?thesis
    using lock_unlock_round_trip [OF h c(1), of "[]"] h c by simp
qed

subsection \<open>Unlock of a recursively held mutex\<close>

text \<open>
  C9. For a recursive mutex owned by the caller with a count above one, \<open>unlock\<close>
  (called from a thread, not from an interrupt handler) returns \<open>ok\<close> and only
  decrements the count: owner, waiting list, boosted priority, saved priority and
  every thread (priorities and acquired-mutex counters) keep their values, and no
  waiter is taken off the list.
\<close>

theorem unlock_recursive_only_decrements:
  assumes "\<not> in_handler_mode s"
    and "type_mx (mx s) = recursive"
    and "owner_mx (mx s) = Some crt"
    and "1 < count_mx (mx s)"
  shows "unlock crt s = (ok, s \<lparr>mx := (mx s) \<lparr>count_mx := count_mx (mx s) - 1\<rparr>\<rparr>)"
  using assms by (simp add: unlock_def)

theorem unlock_recursive_only_decrements_witness:
  "\<not> in_handler_mode (recursive_held 3 2)
   \<and> type_mx (mx (recursive_held 3 2)) = recursive
   \<and> owner_mx (mx (recursive_held 3 2)) = Some 1
   \<and> 1 < count_mx (mx (recursive_held 3 2))
   \<and> unlock 1 (recursive_held 3 2) = (ok, recursive_held 3 1)"
proof -
  have h: "\<not> in_handler_mode (recursive_held 3 2)"
    "type_mx (mx (recursive_held 3 2)) = recursive"
    "owner_mx (mx (recursive_held 3 2)) = Some 1"
    "1 < count_mx (mx (recursive_held 3 2))"
    by (simp_all add: scenario_defs)
  have "(recursive_held 3 2)
          \<lparr>mx := (mx (recursive_held 3 2)) \<lparr>count_mx := count_mx (mx (recursive_held 3 2)) - 1\<rparr>\<rparr>
        = recursive_held 3 1"
    by (simp add: scenario_defs)
  with unlock_recursive_only_decrements [OF h] h show ?thesis by simp
qed

subsection \<open>The default type\<close>

text \<open>
  C10. The constructor stores the type attribute as it is, so a mutex constructed with
  the default type has the default type, and its recursion limit is 1. When its owner
  tries to lock it again, \<open>_try_lock\<close> matches none of the recursive, errorcheck and
  normal cases and returns \<open>EWOULDBLOCK\<close> with the state unchanged, as for a normal
  mutex; \<open>lock\<close>, called from a thread, then blocks on itself: it stays suspended for
  as long as the environment leaves the caller the owner and does not interrupt it.
\<close>

theorem default_type_relock_blocks:
  "(mutex_ctor attr handler_mode = Inr m
      \<longrightarrow> type_mx m = mx_type attr \<and> (mx_type attr = type_default \<longrightarrow> max_count_mx m = 1))
   \<and> (owner_mx (mx s) = Some crt \<and> type_mx (mx s) = type_default
      \<longrightarrow> try_lock_internal crt s = (EWOULDBLOCK, s)
          \<and> (\<not> in_handler_mode s \<and> \<not> sched_locked s \<and> recoverable_mx (mx s)
               \<and> \<not> interrupted (threads s crt)
               \<and> (\<forall>e s'. e \<in> set es \<and> owner_mx (mx s') = Some crt
                      \<and> type_mx (mx s') = type_default \<and> \<not> interrupted (threads s' crt)
                    \<longrightarrow> owner_mx (mx (e s')) = Some crt \<and> type_mx (mx (e s')) = type_default
                        \<and> \<not> interrupted (threads (e s') crt))
             \<longrightarrow> (\<exists>s'. lock crt es s = Suspended s')))"
proof (intro conjI impI)
  assume c: "mutex_ctor attr handler_mode = Inr m"
  then show "type_mx m = mx_type attr"
    by (auto simp add: mutex_ctor_def mutex_init_def Let_def split: if_splits)
  assume "mx_type attr = type_default"
  with c show "max_count_mx m = 1"
    by (auto simp add: mutex_ctor_def mutex_init_def Let_def split: if_splits)
next
  assume o: "owner_mx (mx s) = Some crt \<and> type_mx (mx s) = type_default"
  then show t: "try_lock_internal crt s = (EWOULDBLOCK, s)"
    by (simp add: try_lock_internal_def)
  assume h: "\<not> in_handler_mode s \<and> \<not> sched_locked s \<and> recoverable_mx (mx s)
               \<and> \<not> interrupted (threads s crt)
               \<and> (\<forall>e s'. e \<in> set es \<and> owner_mx (mx s') = Some crt
                      \<and> type_mx (mx s') = type_default \<and> \<not> interrupted (threads s' crt)
                    \<longrightarrow> owner_mx (mx (e s')) = Some crt \<and> type_mx (mx (e s')) = type_default
                        \<and> \<not> interrupted (threads (e s') crt))"
  have "\<exists>s'. lock_loop crt es s = Suspended s'"
    using h o by (intro lock_loop_blocks_on_itself) blast+
  with h t show "\<exists>s'. lock crt es s = Suspended s'"
    by (simp add: lock_def)
qed

theorem default_type_relock_blocks_witness:
  "mutex_ctor (attrs type_default none 0 5) False = Inr (new_mutex (attrs type_default none 0 5))
   \<and> type_mx (new_mutex (attrs type_default none 0 5)) = type_default
   \<and> max_count_mx (new_mutex (attrs type_default none 0 5)) = 1
   \<and> owner_mx (mx (typed_held type_default)) = Some 1
   \<and> type_mx (mx (typed_held type_default)) = type_default
   \<and> try_lock_internal 1 (typed_held type_default) = (EWOULDBLOCK, typed_held type_default)
   \<and> (\<exists>s'. lock 1 [clock_advance 1, clock_advance 1] (typed_held type_default) = Suspended s')"
proof -
  have c: "mutex_ctor (attrs type_default none 0 5) False
             = Inr (new_mutex (attrs type_default none 0 5))"
    by (simp add: scenario_defs)
  have a: "mx_type (attrs type_default none 0 5) = type_default"
    by (simp add: scenario_defs)
  have o: "owner_mx (mx (typed_held type_default)) = Some 1
             \<and> type_mx (mx (typed_held type_default)) = type_default"
    by (simp add: scenario_defs)
  have h: "\<not> in_handler_mode (typed_held type_default)
      \<and> \<not> sched_locked (typed_held type_default)
      \<and> recoverable_mx (mx (typed_held type_default))
      \<and> \<not> interrupted (threads (typed_held type_default) 1)
      \<and> (\<forall>e s'. e \<in> set [clock_advance 1, clock_advance 1] \<and> owner_mx (mx s') = Some 1
             \<and> type_mx (mx s') = type_default \<and> \<not> interrupted (threads s' 1)
           \<longrightarrow> owner_mx (mx (e s')) = Some 1 \<and> type_mx (mx (e s')) = type_default
               \<and> \<not> interrupted (threads (e s') 1))"
    by (auto simp add: scenario_defs call_defs)
  note t = default_type_relock_blocks [where attr = "attrs type_default none 0 5"
      and handler_mode = False and m = "new_mutex (attrs type_default none 0 5)"
      and s = "typed_held type_default" and crt = 1
      and es = "[clock_advance 1, clock_advance 1]"]
  from t c a o h show ?thesis by simp
qed

end
